theory Spec2Isabelle
  imports Main "HOL-Library.Word"
begin

section \<open>JavaScript strings\<close>

text \<open>
  A JavaScript string is a finite sequence of 16-bit code units. The page compares
  strings with the relational operators, interpolates them in template literals and
  passes them to \<open>encodeURIComponent\<close>, all of which work on code units.
\<close>

type_synonym code_unit = "16 word"
type_synonym jsstring = "code_unit list"

text \<open>A string literal of the source whose characters are all ASCII.\<close>

definition js :: "string \<Rightarrow> jsstring" where
  "js s = map of_char s"

text \<open>
  The relational operators on two strings compare code unit by code unit; a proper
  prefix is smaller. \<open>a >= b\<close> is the negation of \<open>a < b\<close>.
\<close>

fun str_lt :: "jsstring \<Rightarrow> jsstring \<Rightarrow> bool" where
  "str_lt [] [] = False"
| "str_lt [] (y # ys) = True"
| "str_lt (x # xs) [] = False"
| "str_lt (x # xs) (y # ys) = (if x < y then True else if y < x then False else str_lt xs ys)"

definition str_ge :: "jsstring \<Rightarrow> jsstring \<Rightarrow> bool" where
  "str_ge a b = (\<not> str_lt a b)"

text \<open>\<open>String(n)\<close> for a non-negative integer: its decimal digits.\<close>

definition digit_unit :: "nat \<Rightarrow> code_unit" where
  "digit_unit d = 0x30 + of_nat d"

fun String_of :: "nat \<Rightarrow> jsstring" where
  "String_of n = (if n < 10 then [digit_unit n] else String_of (n div 10) @ [digit_unit (n mod 10)])"

declare String_of.simps [simp del]

text \<open>
  \<open>s.padStart(maxLength, fillString)\<close>: \<open>s\<close> itself when it is long enough or the
  filler is empty, otherwise the filler repeated and cut to the missing length, then \<open>s\<close>.
\<close>

fun repeat_to :: "nat \<Rightarrow> jsstring \<Rightarrow> jsstring" where
  "repeat_to n fill = take n (concat (replicate n fill))"

definition padStart :: "jsstring \<Rightarrow> nat \<Rightarrow> jsstring \<Rightarrow> jsstring" where
  "padStart s maxLength fillString =
     (if maxLength \<le> length s \<or> fillString = [] then s
      else repeat_to (maxLength - length s) fillString @ s)"

section \<open>The clock\<close>

text \<open>
  \<open>new Date()\<close> reads the host clock. The instant is an input of the model: the local
  time value of the date, in milliseconds since the epoch. \<open>getDay\<close>, \<open>getHours\<close> and
  \<open>getMinutes\<close> are the standard's WeekDay, HourFromTime and MinFromTime of it.
\<close>

type_synonym Date = int

definition getDay :: "Date \<Rightarrow> nat" where
  "getDay t = nat ((t div 86400000 + 4) mod 7)"

definition getHours :: "Date \<Rightarrow> nat" where
  "getHours t = nat ((t div 3600000) mod 24)"

definition getMinutes :: "Date \<Rightarrow> nat" where
  "getMinutes t = nat ((t div 60000) mod 60)"

section \<open>Configuration\<close>

text \<open>
  The page keeps its configuration in module-level constants and its helpers read them.
  In the model each helper takes the configuration it reads as an argument, so that a
  property can be stated for every schedule, address and number; the constants of the
  page are \<open>OPENING_HOURS\<close>, \<open>RESTAURANT_ADDRESS\<close> and \<open>WHATSAPP_NUMBER\<close> below.
\<close>

record hours =
  open' :: jsstring
  close :: jsstring

text \<open>
  \<open>OPENING_HOURS\<close>: an object keyed by weekday (0 = Sunday). Looking up a missing key
  gives \<open>undefined\<close>, here \<open>None\<close>.
\<close>

type_synonym schedule = "nat \<rightharpoonup> hours"

definition OPENING_HOURS :: schedule where
  "OPENING_HOURS =
     [0 \<mapsto> \<lparr>open' = js ''11:00'', close = js ''23:00''\<rparr>,
      1 \<mapsto> \<lparr>open' = js ''11:00'', close = js ''23:30''\<rparr>,
      2 \<mapsto> \<lparr>open' = js ''11:00'', close = js ''23:30''\<rparr>,
      3 \<mapsto> \<lparr>open' = js ''11:00'', close = js ''23:30''\<rparr>,
      4 \<mapsto> \<lparr>open' = js ''11:00'', close = js ''23:30''\<rparr>,
      5 \<mapsto> \<lparr>open' = js ''11:00'', close = js ''00:30''\<rparr>,
      6 \<mapsto> \<lparr>open' = js ''11:00'', close = js ''00:30''\<rparr>]"

section \<open>Opening hours\<close>

definition currentTime :: "Date \<Rightarrow> jsstring" where
  "currentTime now =
     padStart (String_of (getHours now)) 2 (js ''0'') @ js '':'' @
     padStart (String_of (getMinutes now)) 2 (js ''0'')"

definition isRestaurantOpen :: "schedule \<Rightarrow> Date \<Rightarrow> bool" where
  "isRestaurantOpen sched now =
     (let dayOfWeek = getDay now in
      case sched dayOfWeek of
        None \<Rightarrow> False
      | Some h \<Rightarrow> str_ge (currentTime now) (open' h) \<and> str_lt (currentTime now) (close h))"

definition getTodayHours :: "schedule \<Rightarrow> Date \<Rightarrow> jsstring" where
  "getTodayHours sched now =
     (let dayOfWeek = getDay now in
      case sched dayOfWeek of
        None \<Rightarrow> js ''Fechado''
      | Some h \<Rightarrow> open' h @ js '' - '' @ close h)"

section \<open>Percent-encoding\<close>

text \<open>
  \<open>encodeURIComponent\<close> is the standard's Encode with the unreserved set: letters,
  decimal digits and the marks \<open>- _ . ! ~ * ' ( )\<close> stay as they are; every other code
  point is written as the octets of its UTF-8 encoding, each as \<open>%\<close> and two upper-case
  hexadecimal digits. A surrogate code unit that is not part of a pair raises
  \<open>URIError\<close>.
\<close>

datatype error = URIError

definition uriUnescaped :: "code_unit \<Rightarrow> bool" where
  "uriUnescaped c =
     ((0x41 \<le> c \<and> c \<le> 0x5A) \<or> (0x61 \<le> c \<and> c \<le> 0x7A) \<or> (0x30 \<le> c \<and> c \<le> 0x39) \<or>
      c \<in> set [0x2D, 0x5F, 0x2E, 0x21, 0x7E, 0x2A, 0x27, 0x28, 0x29])"

definition isLeadingSurrogate :: "code_unit \<Rightarrow> bool" where
  "isLeadingSurrogate c = (0xD800 \<le> c \<and> c \<le> 0xDBFF)"

definition isTrailingSurrogate :: "code_unit \<Rightarrow> bool" where
  "isTrailingSurrogate c = (0xDC00 \<le> c \<and> c \<le> 0xDFFF)"

definition UTF16SurrogatePairToCodePoint :: "code_unit \<Rightarrow> code_unit \<Rightarrow> nat" where
  "UTF16SurrogatePairToCodePoint lead trail =
     (unat lead - 0xD800) * 0x400 + (unat trail - 0xDC00) + 0x10000"

text \<open>The octets of the UTF-8 encoding of a code point.\<close>

definition utf8_octets :: "nat \<Rightarrow> nat list" where
  "utf8_octets cp =
     (if cp < 0x80 then [cp]
      else if cp < 0x800 then [0xC0 + cp div 64, 0x80 + cp mod 64]
      else if cp < 0x10000 then
        [0xE0 + cp div 4096, 0x80 + (cp div 64) mod 64, 0x80 + cp mod 64]
      else
        [0xF0 + cp div 262144, 0x80 + (cp div 4096) mod 64,
         0x80 + (cp div 64) mod 64, 0x80 + cp mod 64])"

definition hex_unit :: "nat \<Rightarrow> code_unit" where
  "hex_unit d = (if d < 10 then 0x30 + of_nat d else 0x41 + of_nat (d - 10))"

definition escape_octet :: "nat \<Rightarrow> jsstring" where
  "escape_octet b = [0x25, hex_unit (b div 16), hex_unit (b mod 16)]"

definition escape_octets :: "nat list \<Rightarrow> jsstring" where
  "escape_octets bs = concat (map escape_octet bs)"

text \<open>The result of a call that may throw, with a string put in front of a normal result.\<close>

definition prepend :: "jsstring \<Rightarrow> error + jsstring \<Rightarrow> error + jsstring" where
  "prepend p r = (case r of Inl e \<Rightarrow> Inl e | Inr s \<Rightarrow> Inr (p @ s))"

fun encodeURIComponent :: "jsstring \<Rightarrow> error + jsstring" where
  "encodeURIComponent [] = Inr []"
| "encodeURIComponent (c # cs) =
     (if uriUnescaped c then prepend [c] (encodeURIComponent cs)
      else if isLeadingSurrogate c then
        (case cs of
           [] \<Rightarrow> Inl URIError
         | d # ds \<Rightarrow>
             if isTrailingSurrogate d
             then prepend (escape_octets (utf8_octets (UTF16SurrogatePairToCodePoint c d)))
                    (encodeURIComponent ds)
             else Inl URIError)
      else if isTrailingSurrogate c then Inl URIError
      else prepend (escape_octets (utf8_octets (unat c))) (encodeURIComponent cs))"

section \<open>Address\<close>

record address =
  street :: jsstring
  neighborhood :: jsstring
  city :: jsstring
  state :: jsstring
  zipcode :: jsstring

text \<open>The coordinates \<open>lat\<close> and \<open>lng\<close> only place the map marker and are left out.\<close>

definition WHATSAPP_NUMBER :: jsstring where
  "WHATSAPP_NUMBER = js ''5511999999999''"

definition RESTAURANT_ADDRESS :: address where
  "RESTAURANT_ADDRESS =
     \<lparr>street = js ''Rua das Flores, 123'',
      neighborhood = js ''Centro'',
      city = js ''S'' @ [0xE3] @ js ''o Paulo'',
      state = js ''SP'',
      zipcode = js ''01310-100''\<rparr>"

definition getFullAddress :: "address \<Rightarrow> jsstring" where
  "getFullAddress a =
     street a @ js '', '' @ neighborhood a @ js '', '' @ city a @ js '' - '' @ state a"

definition getGoogleMapsUrl :: "address \<Rightarrow> error + jsstring" where
  "getGoogleMapsUrl a =
     (case encodeURIComponent (getFullAddress a) of
        Inl e \<Rightarrow> Inl e
      | Inr addr \<Rightarrow> Inr (js ''https://www.google.com/maps/search/'' @ addr))"

definition getFormattedAddressLines :: "address \<Rightarrow> jsstring list" where
  "getFormattedAddressLines a =
     [street a,
      neighborhood a @ js '', '' @ city a @ js '' - '' @ state a,
      zipcode a]"

section \<open>WhatsApp links\<close>

text \<open>
  The optional \<open>price\<close> is \<open>None\<close> when the argument is left out. The conditional tests
  its truthiness: \<open>undefined\<close> and the empty string are both falsy.
\<close>

definition truthy :: "jsstring option \<Rightarrow> bool" where
  "truthy p = (case p of None \<Rightarrow> False | Some s \<Rightarrow> s \<noteq> [])"

definition createWhatsAppLink :: "jsstring \<Rightarrow> jsstring \<Rightarrow> jsstring option \<Rightarrow> error + jsstring" where
  "createWhatsAppLink number product price =
     (let message =
        (if truthy price
         then js ''Quero pedir: '' @ product @ js '' (R$ '' @ the price @ js '')''
         else js ''Quero pedir: '' @ product)
      in case encodeURIComponent message of
           Inl e \<Rightarrow> Inl e
         | Inr text \<Rightarrow> Inr (js ''https://wa.me/'' @ number @ js ''?text='' @ text))"

text \<open>
  \<open>openWhatsAppDelivery\<close> hands its link to \<open>window.open\<close>; the call is the result of
  the model.
\<close>

datatype effect = WindowOpen jsstring jsstring

definition deliveryQuestion :: jsstring where
  "deliveryQuestion =
     js ''Ol'' @ [0xE1] @ js ''! Voc'' @ [0xEA] @ js ''s fazem entrega no meu endere'' @ [0xE7] @
     js ''o? ''"

definition openWhatsAppDelivery :: "jsstring \<Rightarrow> address \<Rightarrow> error + effect" where
  "openWhatsAppDelivery number a =
     (let message = deliveryQuestion @ getFullAddress a
      in case encodeURIComponent message of
           Inl e \<Rightarrow> Inl e
         | Inr text \<Rightarrow>
             Inr (WindowOpen (js ''https://wa.me/'' @ number @ js ''?text='' @ text) (js ''_blank'')))"

section \<open>Percent-decoding\<close>

text \<open>
  The round trip of the map link is stated against \<open>decodeURIComponent\<close>, the standard's
  Decode with an empty set of preserved escapes: \<open>%XX\<close> with a leading octet below
  \<open>0x80\<close> is that code unit; a leading octet that opens a sequence of 2, 3 or 4 octets
  takes that many escapes, which must be the UTF-8 encoding of a code point, and gives
  the UTF-16 code units of the code point. Anything else raises \<open>URIError\<close>.
\<close>

definition hex_value :: "code_unit \<Rightarrow> nat option" where
  "hex_value c =
     (if 0x30 \<le> c \<and> c \<le> 0x39 then Some (unat c - 0x30)
      else if 0x41 \<le> c \<and> c \<le> 0x46 then Some (unat c - 0x41 + 10)
      else if 0x61 \<le> c \<and> c \<le> 0x66 then Some (unat c - 0x61 + 10)
      else None)"

fun ParseHexOctet :: "jsstring \<Rightarrow> nat option" where
  "ParseHexOctet (h # l # rest) =
     (case hex_value h of
        None \<Rightarrow> None
      | Some a \<Rightarrow> (case hex_value l of None \<Rightarrow> None | Some b \<Rightarrow> Some (16 * a + b)))"
| "ParseHexOctet [h] = None"
| "ParseHexOctet [] = None"

text \<open>The number of leading 1 bits of an octet (5 stands for five or more).\<close>

definition leading_ones :: "nat \<Rightarrow> nat" where
  "leading_ones b =
     (if b < 0x80 then 0 else if b < 0xC0 then 1 else if b < 0xE0 then 2
      else if b < 0xF0 then 3 else if b < 0xF8 then 4 else 5)"

text \<open>Reads \<open>k\<close> further escapes \<open>%XX\<close> from the front of the string.\<close>

fun continuation_octets :: "nat \<Rightarrow> jsstring \<Rightarrow> nat list option" where
  "continuation_octets 0 s = Some []"
| "continuation_octets (Suc k) [] = None"
| "continuation_octets (Suc k) (p # rest) =
     (if p = 0x25 then
        (case ParseHexOctet rest of
           None \<Rightarrow> None
         | Some b \<Rightarrow>
             (case continuation_octets k (drop 2 rest) of
                None \<Rightarrow> None
              | Some bs \<Rightarrow> Some (b # bs)))
      else None)"

definition is_continuation :: "nat \<Rightarrow> bool" where
  "is_continuation b = (0x80 \<le> b \<and> b < 0xC0)"

text \<open>
  The code point of a multi-octet UTF-8 sequence, when the sequence is valid: the
  continuation octets are \<open>10xxxxxx\<close>, the encoding is the shortest one, and the code
  point is neither a surrogate nor beyond \<open>0x10FFFF\<close>.
\<close>

fun utf8_code_point :: "nat list \<Rightarrow> nat option" where
  "utf8_code_point [b0, b1] =
     (let v = (b0 - 0xC0) * 64 + (b1 - 0x80)
      in if is_continuation b1 \<and> 0x80 \<le> v then Some v else None)"
| "utf8_code_point [b0, b1, b2] =
     (let v = (b0 - 0xE0) * 4096 + (b1 - 0x80) * 64 + (b2 - 0x80)
      in if is_continuation b1 \<and> is_continuation b2 \<and> 0x800 \<le> v \<and>
            \<not> (0xD800 \<le> v \<and> v \<le> 0xDFFF)
         then Some v else None)"
| "utf8_code_point [b0, b1, b2, b3] =
     (let v = (b0 - 0xF0) * 262144 + (b1 - 0x80) * 4096 + (b2 - 0x80) * 64 + (b3 - 0x80)
      in if is_continuation b1 \<and> is_continuation b2 \<and> is_continuation b3 \<and>
            0x10000 \<le> v \<and> v \<le> 0x10FFFF
         then Some v else None)"
| "utf8_code_point bs = None"

definition UTF16EncodeCodePoint :: "nat \<Rightarrow> jsstring" where
  "UTF16EncodeCodePoint cp =
     (if cp \<le> 0xFFFF then [of_nat cp]
      else [of_nat ((cp - 0x10000) div 0x400 + 0xD800),
            of_nat ((cp - 0x10000) mod 0x400 + 0xDC00)])"

fun decodeURIComponent :: "jsstring \<Rightarrow> error + jsstring" where
  "decodeURIComponent [] = Inr []"
| "decodeURIComponent (c # cs) =
     (if c \<noteq> 0x25 then prepend [c] (decodeURIComponent cs)
      else
        (case ParseHexOctet cs of
           None \<Rightarrow> Inl URIError
         | Some b \<Rightarrow>
             if leading_ones b = 0 then prepend [of_nat b] (decodeURIComponent (drop 2 cs))
             else if leading_ones b = 1 \<or> 4 < leading_ones b then Inl URIError
             else
               (case continuation_octets (leading_ones b - 1) (drop 2 cs) of
                  None \<Rightarrow> Inl URIError
                | Some bs \<Rightarrow>
                    (case utf8_code_point (b # bs) of
                       None \<Rightarrow> Inl URIError
                     | Some v \<Rightarrow>
                         prepend (UTF16EncodeCodePoint v)
                           (decodeURIComponent (drop (2 + 3 * (leading_ones b - 1)) cs))))))"

text \<open>
  \<open>s.isWellFormed()\<close>: no surrogate code unit of \<open>s\<close> stands outside a pair.
\<close>

fun isWellFormed :: "jsstring \<Rightarrow> bool" where
  "isWellFormed [] = True"
| "isWellFormed [c] = (\<not> isLeadingSurrogate c \<and> \<not> isTrailingSurrogate c)"
| "isWellFormed (c # d # ds) =
     (if isLeadingSurrogate c then isTrailingSurrogate d \<and> isWellFormed ds
      else \<not> isTrailingSurrogate c \<and> isWellFormed (d # ds))"

section \<open>Facts about the string order\<close>

lemma str_lt_irrefl: "\<not> str_lt a a"
  by (induction a) simp_all

lemma str_lt_trans: "str_lt a b \<Longrightarrow> str_lt b c \<Longrightarrow> str_lt a c"
proof (induction a b arbitrary: c rule: str_lt.induct)
  case 1
  then show ?case by simp
next
  case (2 y ys)
  then show ?case by (cases c) simp_all
next
  case (3 x xs)
  then show ?case by simp
next
  case (4 x xs y ys)
  show ?case
  proof (cases c)
    case Nil
    with 4(3) show ?thesis by simp
  next
    case (Cons z zs)
    show ?thesis
    proof (cases "x < y")
      case True
      with 4(3) Cons have "y \<le> z" by (simp split: if_splits)
      with True have "x < z" by simp
      with Cons show ?thesis by simp
    next
      case False
      with 4(2) have xy: "x = y" and t: "str_lt xs ys" by (simp_all split: if_splits)
      show ?thesis
      proof (cases "y < z")
        case True
        with xy Cons show ?thesis by simp
      next
        case nlt: False
        with 4(3) Cons have yz: "y = z" and u: "str_lt ys zs" by (simp_all split: if_splits)
        from 4(1) [OF False _ t u] xy have "str_lt xs zs" by simp
        with xy yz Cons show ?thesis by simp
      qed
    qed
  qed
qed
lemma str_lt_total: "\<not> str_lt a b \<Longrightarrow> a = b \<or> str_lt b a"
  by (induction a b rule: str_lt.induct) (auto split: if_splits)

lemma str_ge_iff: "str_ge a b \<longleftrightarrow> (b = a \<or> str_lt b a)"
  using str_lt_total [of a b] str_lt_irrefl [of a] str_lt_trans [of a b a]
  by (auto simp: str_ge_def)

section \<open>The clock string\<close>

lemma String_of_one_digit: "n < 10 \<Longrightarrow> String_of n = [digit_unit n]"
  by (simp add: String_of.simps)

lemma String_of_two_digits:
  "10 \<le> n \<Longrightarrow> n < 100 \<Longrightarrow> String_of n = [digit_unit (n div 10), digit_unit (n mod 10)]"
  by (subst String_of.simps) (simp add: String_of_one_digit)

lemma padStart_two_digits:
  "n < 100 \<Longrightarrow>
   padStart (String_of n) 2 (js ''0'') = [digit_unit (n div 10), digit_unit (n mod 10)]"
  by (cases "n < 10")
     (simp_all add: padStart_def String_of_one_digit String_of_two_digits js_def digit_unit_def)

lemma getHours_bound: "getHours t < 24"
  by (simp add: getHours_def)

lemma getMinutes_bound: "getMinutes t < 60"
  by (simp add: getMinutes_def)

lemma getDay_bound: "getDay t < 7"
  by (simp add: getDay_def)

lemma currentTime_HH_MM:
  "currentTime now =
     [digit_unit (getHours now div 10), digit_unit (getHours now mod 10), 0x3A,
      digit_unit (getMinutes now div 10), digit_unit (getMinutes now mod 10)]"
proof -
  have h: "getHours now < 100" using getHours_bound [of now] by simp
  have m: "getMinutes now < 100" using getMinutes_bound [of now] by simp
  have c: "js '':'' = [0x3A]" by (simp add: js_def)
  show ?thesis
    by (simp only: currentTime_def padStart_two_digits [OF h] padStart_two_digits [OF m] c
          append.simps)
qed

lemma unat_of_nat16: "n < 65536 \<Longrightarrow> unat (of_nat n :: code_unit) = n"
  by (simp add: unat_of_nat)

lemma unat_digit_unit: "d < 10 \<Longrightarrow> unat (digit_unit d) = 48 + d"
proof -
  assume d: "d < 10"
  have "digit_unit d = of_nat (48 + d)"
    by (simp add: digit_unit_def)
  then show ?thesis using d by (simp only: unat_of_nat16)
qed

lemma digit_unit_less:
  "a < 10 \<Longrightarrow> b < 10 \<Longrightarrow> digit_unit a < digit_unit b \<longleftrightarrow> a < b"
  by (simp add: word_less_nat_alt unat_digit_unit)

lemma two_digits_order:
  "(a::nat) < b \<longleftrightarrow> a div 10 < b div 10 \<or> (a div 10 = b div 10 \<and> a mod 10 < b mod 10)"
proof -
  define qa ra qb rb
    where "qa = a div 10" and "ra = a mod 10" and "qb = b div 10" and "rb = b mod 10"
  have a: "a = 10 * qa + ra" "ra < 10" and b: "b = 10 * qb + rb" "rb < 10"
    by (simp_all add: qa_def ra_def qb_def rb_def)
  have "10 * qa + ra < 10 * qb + rb \<longleftrightarrow> qa < qb \<or> (qa = qb \<and> ra < rb)"
    using a(2) b(2) by linarith
  then show ?thesis
    unfolding qa_def [symmetric] ra_def [symmetric] qb_def [symmetric] rb_def [symmetric]
    using a(1) b(1) by simp
qed

lemma two_digits_eq:
  "(a::nat) = b \<longleftrightarrow> a div 10 = b div 10 \<and> a mod 10 = b mod 10"
  by (metis div_mult_mod_eq)

lemma str_lt_two_digits:
  assumes "a < 100" "b < 100"
  shows "str_lt (digit_unit (a div 10) # digit_unit (a mod 10) # xs)
                (digit_unit (b div 10) # digit_unit (b mod 10) # ys) \<longleftrightarrow>
         a < b \<or> (a = b \<and> str_lt xs ys)"
proof -
  have d: "a div 10 < 10" "a mod 10 < 10" "b div 10 < 10" "b mod 10 < 10"
    using assms by simp_all
  have "str_lt (digit_unit (a div 10) # digit_unit (a mod 10) # xs)
                (digit_unit (b div 10) # digit_unit (b mod 10) # ys) \<longleftrightarrow>
        a div 10 < b div 10 \<or>
        (a div 10 = b div 10 \<and> (a mod 10 < b mod 10 \<or> (a mod 10 = b mod 10 \<and> str_lt xs ys)))"
    by (simp add: digit_unit_less d)
  also have "\<dots> \<longleftrightarrow> a < b \<or> (a = b \<and> str_lt xs ys)"
    unfolding two_digits_order [of a b] two_digits_eq [of a b] by blast
  finally show ?thesis .
qed

text \<open>
  On clock strings the string order is the order of the minutes since midnight.
\<close>

lemma str_lt_currentTime:
  "str_lt (currentTime s) (currentTime t) \<longleftrightarrow>
   60 * getHours s + getMinutes s < 60 * getHours t + getMinutes t"
proof -
  have h: "getHours s < 100" "getHours t < 100"
    using getHours_bound [of s] getHours_bound [of t] by simp_all
  have m: "getMinutes s < 100" "getMinutes t < 100"
    using getMinutes_bound [of s] getMinutes_bound [of t] by simp_all
  have "str_lt (currentTime s) (currentTime t) \<longleftrightarrow>
        getHours s < getHours t \<or> (getHours s = getHours t \<and> getMinutes s < getMinutes t)"
    unfolding currentTime_HH_MM
    by (subst str_lt_two_digits [OF h], subst str_lt.simps(4), subst str_lt_two_digits [OF m])
       simp
  also have "\<dots> \<longleftrightarrow> 60 * getHours s + getMinutes s < 60 * getHours t + getMinutes t"
    using getMinutes_bound [of s] getMinutes_bound [of t] by linarith
  finally show ?thesis .
qed

section \<open>Properties of the opening hours\<close>

text \<open>
  When the opening and closing times are clock strings themselves, the comparison of
  strings is the comparison of minutes since midnight.
\<close>

lemma isRestaurantOpen_minutes:
  assumes "sched (getDay now) = Some \<lparr>open' = currentTime s, close = currentTime e\<rparr>"
  shows "isRestaurantOpen sched now \<longleftrightarrow>
           60 * getHours s + getMinutes s \<le> 60 * getHours now + getMinutes now \<and>
           60 * getHours now + getMinutes now < 60 * getHours e + getMinutes e"
  using assms by (simp add: isRestaurantOpen_def str_ge_def str_lt_currentTime not_less)

text \<open>
  C1. For an entry whose opening time is below its closing time in the string order,
  the restaurant is open exactly when the clock string \<open>HH:MM\<close> of the instant is at or
  after the opening time and before the closing time. At the opening time it is open,
  at the closing time it is closed.
\<close>

theorem isRestaurantOpen_within_hours:
  assumes "sched (getDay now) = Some h" and "str_lt (open' h) (close h)"
  shows "(isRestaurantOpen sched now \<longleftrightarrow>
            (open' h = currentTime now \<or> str_lt (open' h) (currentTime now)) \<and>
            str_lt (currentTime now) (close h)) \<and>
         (currentTime now = open' h \<longrightarrow> isRestaurantOpen sched now) \<and>
         (currentTime now = close h \<longrightarrow> \<not> isRestaurantOpen sched now)"
proof -
  have eq: "isRestaurantOpen sched now \<longleftrightarrow>
              (open' h = currentTime now \<or> str_lt (open' h) (currentTime now)) \<and>
              str_lt (currentTime now) (close h)"
    using assms(1) by (simp add: isRestaurantOpen_def str_ge_iff)
  have at_open: "currentTime now = open' h \<longrightarrow> isRestaurantOpen sched now"
    using eq assms(2) by simp
  have at_close: "currentTime now = close h \<longrightarrow> \<not> isRestaurantOpen sched now"
    using eq str_lt_irrefl [of "close h"] by simp
  from eq at_open at_close show ?thesis by blast
qed

text \<open>
  A schedule with Monday 11:00 to 23:30 only: Monday 23:29 and Monday 11:00 are open,
  Monday 23:30 and Monday 10:59 are closed. (5 January 1970 is a Monday.)
\<close>

theorem isRestaurantOpen_within_hours_witness:
  "isRestaurantOpen [1 \<mapsto> \<lparr>open' = js ''11:00'', close = js ''23:30''\<rparr>] 430140000 \<and>
   \<not> isRestaurantOpen [1 \<mapsto> \<lparr>open' = js ''11:00'', close = js ''23:30''\<rparr>] 430200000 \<and>
   \<not> isRestaurantOpen [1 \<mapsto> \<lparr>open' = js ''11:00'', close = js ''23:30''\<rparr>] 385140000 \<and>
   isRestaurantOpen [1 \<mapsto> \<lparr>open' = js ''11:00'', close = js ''23:30''\<rparr>] 385200000"
proof -
  let ?h = "\<lparr>open' = js ''11:00'', close = js ''23:30''\<rparr>"
  let ?s = "[1 \<mapsto> ?h]"
  have lt: "str_lt (open' ?h) (close ?h)"
    by (simp add: js_def)
  have d: "?s (getDay 430140000) = Some ?h" "?s (getDay 430200000) = Some ?h"
    "?s (getDay 385140000) = Some ?h" "?s (getDay 385200000) = Some ?h"
    by (simp_all add: getDay_def)
  have t: "currentTime 430140000 = js ''23:29''" "currentTime 430200000 = js ''23:30''"
    "currentTime 385140000 = js ''10:59''" "currentTime 385200000 = js ''11:00''"
    by (simp_all add: currentTime_HH_MM getHours_def getMinutes_def digit_unit_def js_def)
  have a: "isRestaurantOpen ?s 430140000"
    using isRestaurantOpen_within_hours [of ?s 430140000 ?h, OF d(1) lt] unfolding t
    by (simp add: js_def)
  have b: "\<not> isRestaurantOpen ?s 430200000"
    using isRestaurantOpen_within_hours [of ?s 430200000 ?h, OF d(2) lt] unfolding t
    by (simp add: js_def)
  have c: "\<not> isRestaurantOpen ?s 385140000"
    using isRestaurantOpen_within_hours [of ?s 385140000 ?h, OF d(3) lt] unfolding t
    by (simp add: js_def)
  have e: "isRestaurantOpen ?s 385200000"
    using isRestaurantOpen_within_hours [of ?s 385200000 ?h, OF d(4) lt] unfolding t
    by (simp add: js_def)
  from a b c e show ?thesis by blast
qed

text \<open>
  C2. For an entry whose closing time is below its opening time in the string order
  (a closing time after midnight, as 11:00 to 00:30), the restaurant is closed at every
  instant of that weekday.
\<close>

theorem isRestaurantOpen_close_before_open:
  assumes "sched (getDay now) = Some h" and "str_lt (close h) (open' h)"
  shows "\<not> isRestaurantOpen sched now"
proof
  assume "isRestaurantOpen sched now"
  with assms(1) have ge: "\<not> str_lt (currentTime now) (open' h)"
    and lt: "str_lt (currentTime now) (close h)"
    by (simp_all add: isRestaurantOpen_def str_ge_def)
  from str_lt_trans [OF lt assms(2)] ge show False by simp
qed

text \<open>Friday 23:00 with the page's own table (2 January 1970 is a Friday).\<close>

theorem isRestaurantOpen_close_before_open_witness:
  "OPENING_HOURS (getDay 169200000) = Some \<lparr>open' = js ''11:00'', close = js ''00:30''\<rparr> \<and>
   currentTime 169200000 = js ''23:00'' \<and>
   \<not> isRestaurantOpen OPENING_HOURS 169200000"
proof -
  let ?h = "\<lparr>open' = js ''11:00'', close = js ''00:30''\<rparr>"
  have d: "OPENING_HOURS (getDay 169200000) = Some ?h"
    by (simp add: getDay_def OPENING_HOURS_def)
  have lt: "str_lt (close ?h) (open' ?h)"
    by (simp add: js_def)
  have t: "currentTime 169200000 = js ''23:00''"
    by (simp add: currentTime_HH_MM getHours_def getMinutes_def digit_unit_def js_def)
  from d t isRestaurantOpen_close_before_open [of OPENING_HOURS 169200000 ?h, OF d lt] show ?thesis by blast
qed

text \<open>
  C5. On a weekday without an entry the restaurant is closed at every instant; the
  lookup of a missing day is an ordinary result, not an error.
\<close>

theorem isRestaurantOpen_absent_day:
  assumes "sched (getDay now) = None"
  shows "isRestaurantOpen sched now = False"
  using assms by (simp add: isRestaurantOpen_def)

text \<open>Sunday noon with Sunday taken out of the table (4 January 1970 is a Sunday).\<close>

theorem isRestaurantOpen_absent_day_witness:
  "(OPENING_HOURS(0 := None)) (getDay 302400000) = None \<and>
   isRestaurantOpen (OPENING_HOURS(0 := None)) 302400000 = False"
proof -
  have d: "(OPENING_HOURS(0 := None)) (getDay 302400000) = None"
    by (simp add: getDay_def)
  from d isRestaurantOpen_absent_day [of "OPENING_HOURS(0 := None)" 302400000, OF d] show ?thesis by blast
qed

text \<open>
  C4. The label of today's hours is the opening time, \<open>" - "\<close> and the closing time of
  today's entry, taken as they are, and \<open>"Fechado"\<close> when today has no entry.
\<close>

theorem getTodayHours_label:
  "(\<forall>h. sched (getDay now) = Some h \<longrightarrow>
         getTodayHours sched now = open' h @ js '' - '' @ close h) \<and>
   (sched (getDay now) = None \<longrightarrow> getTodayHours sched now = js ''Fechado'')"
  by (simp add: getTodayHours_def)

theorem getTodayHours_label_witness:
  "getTodayHours OPENING_HOURS 430140000 = js ''11:00 - 23:30'' \<and>
   getTodayHours (OPENING_HOURS(0 := None)) 302400000 = js ''Fechado''"
proof -
  let ?h = "\<lparr>open' = js ''11:00'', close = js ''23:30''\<rparr>"
  have m: "OPENING_HOURS (getDay 430140000) = Some ?h"
    by (simp add: getDay_def OPENING_HOURS_def)
  have s: "(OPENING_HOURS(0 := None)) (getDay 302400000) = None"
    by (simp add: getDay_def)
  have a: "getTodayHours OPENING_HOURS 430140000 = open' ?h @ js '' - '' @ close ?h"
    using getTodayHours_label [of OPENING_HOURS 430140000] m by blast
  have b: "getTodayHours (OPENING_HOURS(0 := None)) 302400000 = js ''Fechado''"
    using getTodayHours_label [of "OPENING_HOURS(0 := None)" 302400000] s by blast
  from a b show ?thesis by (simp add: js_def)
qed

lemma space_in_label: "0x20 \<in> set (a @ js '' - '' @ b)"
  by (simp add: js_def)

lemma no_space_in_Fechado: "0x20 \<notin> set (js ''Fechado'')"
  by (simp add: js_def)

text \<open>
  C10. The label is \<open>"Fechado"\<close> exactly when today's entry is absent, and whenever the
  label is \<open>"Fechado"\<close> the restaurant is reported closed at the same instant.
\<close>

theorem getTodayHours_Fechado_iff:
  "(getTodayHours sched now = js ''Fechado'' \<longleftrightarrow> sched (getDay now) = None) \<and>
   (getTodayHours sched now = js ''Fechado'' \<longrightarrow> \<not> isRestaurantOpen sched now)"
proof -
  have iff: "getTodayHours sched now = js ''Fechado'' \<longleftrightarrow> sched (getDay now) = None"
  proof (cases "sched (getDay now)")
    case None
    then show ?thesis by (simp add: getTodayHours_def)
  next
    case (Some h)
    have "open' h @ js '' - '' @ close h \<noteq> js ''Fechado''"
      using space_in_label [of "open' h" "close h"] no_space_in_Fechado by metis
    with Some show ?thesis by (simp add: getTodayHours_def)
  qed
  moreover have "sched (getDay now) = None \<longrightarrow> \<not> isRestaurantOpen sched now"
    by (simp add: isRestaurantOpen_def)
  ultimately show ?thesis by blast
qed

theorem getTodayHours_Fechado_iff_witness:
  "getTodayHours (OPENING_HOURS(0 := None)) 302400000 = js ''Fechado'' \<and>
   \<not> isRestaurantOpen (OPENING_HOURS(0 := None)) 302400000 \<and>
   getTodayHours OPENING_HOURS 302400000 \<noteq> js ''Fechado''"
proof -
  have s: "(OPENING_HOURS(0 := None)) (getDay 302400000) = None"
    by (simp add: getDay_def)
  have p: "OPENING_HOURS (getDay 302400000) \<noteq> None"
    by (simp add: getDay_def OPENING_HOURS_def)
  from getTodayHours_Fechado_iff [of "OPENING_HOURS(0 := None)" 302400000] s
    getTodayHours_Fechado_iff [of OPENING_HOURS 302400000] p
  show ?thesis by blast
qed

section \<open>Decoding an encoded string\<close>

lemma unat_hex_unit:
  "d < 16 \<Longrightarrow> unat (hex_unit d) = (if d < 10 then 48 + d else 55 + d)"
proof -
  assume d: "d < 16"
  have "hex_unit d = (if d < 10 then of_nat (48 + d) else of_nat (65 + (d - 10)))"
    by (simp add: hex_unit_def)
  then show ?thesis using d by (simp only: unat_of_nat16 split: if_splits) auto
qed

lemma hex_value_hex_unit: "d < 16 \<Longrightarrow> hex_value (hex_unit d) = Some d"
  by (simp add: hex_value_def word_le_nat_alt unat_hex_unit)

lemma ParseHexOctet_escape:
  assumes "b < 256"
  shows "ParseHexOctet (hex_unit (b div 16) # hex_unit (b mod 16) # rest) = Some b"
proof -
  have "b div 16 < 16" "b mod 16 < 16" using assms by simp_all
  then show ?thesis by (simp add: hex_value_hex_unit)
qed

lemma prepend_Inr [simp]: "prepend p (Inr s) = Inr (p @ s)"
  by (simp add: prepend_def)

lemma prepend_Inl [simp]: "prepend p (Inl e) = Inl e"
  by (simp add: prepend_def)

lemma prepend_eq_Inr: "prepend p r = Inr s \<longleftrightarrow> (\<exists>t. r = Inr t \<and> s = p @ t)"
  by (cases r) auto

lemma escape_octet_append:
  "escape_octet b @ rest = 0x25 # hex_unit (b div 16) # hex_unit (b mod 16) # rest"
  by (simp add: escape_octet_def)

lemma drop_two: "drop 2 (a # b # xs) = xs"
  by (simp add: numeral_2_eq_2)

lemma drop_two_more: "drop (2 + n) (a # b # xs) = drop n xs"
  by (simp add: numeral_2_eq_2)

lemma decode_escape_ascii:
  assumes "b < 0x80"
  shows "decodeURIComponent (escape_octet b @ rest) = prepend [of_nat b] (decodeURIComponent rest)"
proof -
  have b: "b < 256" using assms by simp
  have l: "leading_ones b = 0" using assms by (simp add: leading_ones_def)
  show ?thesis
    unfolding escape_octet_append
    by (subst decodeURIComponent.simps(2)) (simp add: ParseHexOctet_escape [OF b] l drop_two del: ParseHexOctet.simps)
qed

lemma escape_octets_Cons: "escape_octets (b # bs) = escape_octet b @ escape_octets bs"
  by (simp add: escape_octets_def)

lemma escape_octets_Nil: "escape_octets [] = []"
  by (simp add: escape_octets_def)

lemma length_escape_octets: "length (escape_octets bs) = 3 * length bs"
  by (induction bs) (simp_all add: escape_octets_Nil escape_octets_Cons escape_octet_def)

lemma continuation_octets_escape:
  assumes "\<forall>b\<in>set bs. b < 256"
  shows "continuation_octets (length bs) (escape_octets bs @ rest) = Some bs"
  using assms
proof (induction bs)
  case Nil
  then show ?case by simp
next
  case (Cons b bs)
  then have b: "b < 256" and ih: "continuation_octets (length bs) (escape_octets bs @ rest) = Some bs"
    by simp_all
  show ?case
    by (simp add: escape_octets_Cons escape_octet_append ParseHexOctet_escape [OF b] ih drop_two
          del: ParseHexOctet.simps)
qed

lemma decode_escape_multi:
  assumes b0: "b0 < 256" and bs: "\<forall>b\<in>set bs. b < 256"
    and n: "leading_ones b0 = Suc (length bs)" and len: "0 < length bs" "length bs < 4"
    and v: "utf8_code_point (b0 # bs) = Some v"
  shows "decodeURIComponent (escape_octets (b0 # bs) @ rest) =
           prepend (UTF16EncodeCodePoint v) (decodeURIComponent rest)"
proof -
  let ?X = "escape_octets bs @ rest"
  have e: "escape_octets (b0 # bs) @ rest = 0x25 # hex_unit (b0 div 16) # hex_unit (b0 mod 16) # ?X"
    by (simp add: escape_octets_Cons escape_octet_append)
  have d: "drop (3 * length bs) ?X = rest"
    by (simp add: length_escape_octets)
  have l: "bs \<noteq> []" "\<not> 3 < length bs" using len by auto
  show ?thesis
    unfolding e
    by (subst decodeURIComponent.simps(2))
       (simp add: ParseHexOctet_escape [OF b0] n l continuation_octets_escape [OF bs] v
          length_escape_octets drop_two drop_two_more
          del: utf8_code_point.simps ParseHexOctet.simps)
qed

lemma split_64: "(cp::nat) = 64 * (cp div 64) + cp mod 64"
  by simp

lemma split_4096: "(cp::nat) = 4096 * (cp div 4096) + 64 * (cp div 64 mod 64) + cp mod 64"
proof -
  have "cp mod (64 * 64) = 64 * (cp div 64 mod 64) + cp mod 64"
    by (rule mod_mult2_eq)
  moreover have "cp = 4096 * (cp div 4096) + cp mod 4096" by simp
  ultimately show ?thesis by simp
qed

lemma split_262144:
  "(cp::nat) = 262144 * (cp div 262144) + 4096 * (cp div 4096 mod 64) +
               64 * (cp div 64 mod 64) + cp mod 64"
proof -
  have a: "cp mod (4096 * 64) = 4096 * (cp div 4096 mod 64) + cp mod 4096"
    by (rule mod_mult2_eq)
  have b: "cp mod (64 * 64) = 64 * (cp div 64 mod 64) + cp mod 64"
    by (rule mod_mult2_eq)
  have c: "cp = 262144 * (cp div 262144) + cp mod 262144" by simp
  from a b c show ?thesis by simp
qed

lemma utf8_one:
  assumes "cp < 0x80"
  shows "utf8_octets cp = [cp]"
  using assms by (simp add: utf8_octets_def)

lemma utf8_two:
  assumes "0x80 \<le> cp" "cp < 0x800"
  shows "\<exists>b0 b1. utf8_octets cp = [b0, b1] \<and> b0 < 256 \<and> b1 < 256 \<and> leading_ones b0 = 2 \<and>
           utf8_code_point [b0, b1] = Some cp"
proof -
  let ?b0 = "0xC0 + cp div 64" and ?b1 = "0x80 + cp mod 64"
  have o: "utf8_octets cp = [?b0, ?b1]" using assms by (simp add: utf8_octets_def)
  have q: "cp div 64 < 32" using assms(2) by simp
  have r: "cp mod 64 < 64" by simp
  have l: "leading_ones ?b0 = 2" using q by (simp add: leading_ones_def)
  have v: "(?b0 - 0xC0) * 64 + (?b1 - 0x80) = cp" using split_64 [of cp] by simp
  have c: "is_continuation ?b1" using r by (simp add: is_continuation_def)
  have u: "utf8_code_point [?b0, ?b1] = Some cp"
    unfolding utf8_code_point.simps Let_def v using c assms(1) by simp
  have b: "?b0 < 256" "?b1 < 256" using q r by linarith+
  from o b l u show ?thesis by blast
qed

lemma utf8_three:
  assumes "0x800 \<le> cp" "cp < 0x10000" "\<not> (0xD800 \<le> cp \<and> cp \<le> 0xDFFF)"
  shows "\<exists>b0 b1 b2. utf8_octets cp = [b0, b1, b2] \<and> b0 < 256 \<and> b1 < 256 \<and> b2 < 256 \<and>
           leading_ones b0 = 3 \<and> utf8_code_point [b0, b1, b2] = Some cp"
proof -
  let ?b0 = "0xE0 + cp div 4096" and ?b1 = "0x80 + cp div 64 mod 64" and ?b2 = "0x80 + cp mod 64"
  have o: "utf8_octets cp = [?b0, ?b1, ?b2]" using assms by (simp add: utf8_octets_def)
  have q: "cp div 4096 < 16" using assms(2) by simp
  have r: "cp div 64 mod 64 < 64" "cp mod 64 < 64" by simp_all
  have l: "leading_ones ?b0 = 3" using q by (simp add: leading_ones_def)
  have v: "(?b0 - 0xE0) * 4096 + (?b1 - 0x80) * 64 + (?b2 - 0x80) = cp"
    using split_4096 [of cp] by simp
  have c: "is_continuation ?b1" "is_continuation ?b2" using r by (simp_all add: is_continuation_def)
  have u: "utf8_code_point [?b0, ?b1, ?b2] = Some cp"
    unfolding utf8_code_point.simps Let_def v using c assms(1,3) by simp
  have b: "?b0 < 256" "?b1 < 256" "?b2 < 256" using q r by linarith+
  from o b l u show ?thesis by blast
qed

lemma utf8_four:
  assumes "0x10000 \<le> cp" "cp \<le> 0x10FFFF"
  shows "\<exists>b0 b1 b2 b3. utf8_octets cp = [b0, b1, b2, b3] \<and>
           b0 < 256 \<and> b1 < 256 \<and> b2 < 256 \<and> b3 < 256 \<and>
           leading_ones b0 = 4 \<and> utf8_code_point [b0, b1, b2, b3] = Some cp"
proof -
  let ?b0 = "0xF0 + cp div 262144" and ?b1 = "0x80 + cp div 4096 mod 64"
    and ?b2 = "0x80 + cp div 64 mod 64" and ?b3 = "0x80 + cp mod 64"
  have o: "utf8_octets cp = [?b0, ?b1, ?b2, ?b3]" using assms by (simp add: utf8_octets_def)
  have q: "cp div 262144 < 8" using assms(2) by simp
  have r: "cp div 4096 mod 64 < 64" "cp div 64 mod 64 < 64" "cp mod 64 < 64" by simp_all
  have l: "leading_ones ?b0 = 4" using q by (simp add: leading_ones_def)
  have v: "(?b0 - 0xF0) * 262144 + (?b1 - 0x80) * 4096 + (?b2 - 0x80) * 64 + (?b3 - 0x80) = cp"
    using split_262144 [of cp] by simp
  have c: "is_continuation ?b1" "is_continuation ?b2" "is_continuation ?b3"
    using r by (simp_all add: is_continuation_def)
  have u: "utf8_code_point [?b0, ?b1, ?b2, ?b3] = Some cp"
    unfolding utf8_code_point.simps Let_def v using c assms by simp
  have b: "?b0 < 256" "?b1 < 256" "?b2 < 256" "?b3 < 256" using q r by linarith+
  from o b l u show ?thesis by blast
qed

lemma decode_escape_code_point:
  assumes "cp \<le> 0x10FFFF" "\<not> (0xD800 \<le> cp \<and> cp \<le> 0xDFFF)"
  shows "decodeURIComponent (escape_octets (utf8_octets cp) @ rest) =
           prepend (UTF16EncodeCodePoint cp) (decodeURIComponent rest)"
proof -
  consider (one) "cp < 0x80" | (two) "0x80 \<le> cp" "cp < 0x800"
    | (three) "0x800 \<le> cp" "cp < 0x10000" | (four) "0x10000 \<le> cp"
    by linarith
  then show ?thesis
  proof cases
    case one
    have "escape_octets (utf8_octets cp) = escape_octet cp"
      by (simp add: utf8_one [OF one] escape_octets_Cons escape_octets_Nil)
    moreover have "UTF16EncodeCodePoint cp = [of_nat cp]"
      using one by (simp add: UTF16EncodeCodePoint_def)
    ultimately show ?thesis using decode_escape_ascii [OF one, of rest] by simp
  next
    case two
    from utf8_two [OF two] obtain b0 b1 where o: "utf8_octets cp = [b0, b1]"
      and b: "b0 < 256" "b1 < 256" and l: "leading_ones b0 = 2"
      and u: "utf8_code_point [b0, b1] = Some cp" by blast
    show ?thesis
      unfolding o using decode_escape_multi [of b0 "[b1]" cp rest] b l u by simp
  next
    case three
    from utf8_three [OF three assms(2)] obtain b0 b1 b2 where o: "utf8_octets cp = [b0, b1, b2]"
      and b: "b0 < 256" "b1 < 256" "b2 < 256" and l: "leading_ones b0 = 3"
      and u: "utf8_code_point [b0, b1, b2] = Some cp" by blast
    show ?thesis
      unfolding o using decode_escape_multi [of b0 "[b1, b2]" cp rest] b l u by simp
  next
    case four
    from utf8_four [OF four assms(1)] obtain b0 b1 b2 b3
      where o: "utf8_octets cp = [b0, b1, b2, b3]"
      and b: "b0 < 256" "b1 < 256" "b2 < 256" "b3 < 256" and l: "leading_ones b0 = 4"
      and u: "utf8_code_point [b0, b1, b2, b3] = Some cp" by blast
    show ?thesis
      unfolding o using decode_escape_multi [of b0 "[b1, b2, b3]" cp rest] b l u by simp
  qed
qed

lemma unat_code_unit_bound: "unat (c :: code_unit) < 65536"
  using unsigned_less [of c, where ?'a = nat] by simp

lemma UTF16Encode_unit: "UTF16EncodeCodePoint (unat (c :: code_unit)) = [c]"
  using unat_code_unit_bound [of c] by (simp add: UTF16EncodeCodePoint_def)

lemma surrogate_unat:
  "isLeadingSurrogate c \<longleftrightarrow> 0xD800 \<le> unat c \<and> unat c \<le> 0xDBFF"
  "isTrailingSurrogate c \<longleftrightarrow> 0xDC00 \<le> unat c \<and> unat c \<le> 0xDFFF"
  by (simp_all add: isLeadingSurrogate_def isTrailingSurrogate_def word_le_nat_alt)

lemma pair_code_point:
  assumes "isLeadingSurrogate c" "isTrailingSurrogate d"
  shows "0x10000 \<le> UTF16SurrogatePairToCodePoint c d"
    and "UTF16SurrogatePairToCodePoint c d \<le> 0x10FFFF"
    and "UTF16EncodeCodePoint (UTF16SurrogatePairToCodePoint c d) = [c, d]"
proof -
  define x y where "x = unat c - 0xD800" and "y = unat d - 0xDC00"
  have c: "unat c = 0xD800 + x" "x < 0x400" and d: "unat d = 0xDC00 + y" "y < 0x400"
    using assms unfolding surrogate_unat x_def y_def by linarith+
  have cp: "UTF16SurrogatePairToCodePoint c d = x * 0x400 + y + 0x10000"
    by (simp add: UTF16SurrogatePairToCodePoint_def x_def y_def)
  show "0x10000 \<le> UTF16SurrogatePairToCodePoint c d" unfolding cp by simp
  show "UTF16SurrogatePairToCodePoint c d \<le> 0x10FFFF" unfolding cp using c(2) d(2) by simp
  have q: "(x * 0x400 + y) div 0x400 = x" using d(2) by simp
  have r: "(x * 0x400 + y) mod 0x400 = y" using d(2) by simp
  have "UTF16EncodeCodePoint (x * 0x400 + y + 0x10000) =
          [of_nat (x + 0xD800), of_nat (y + 0xDC00)]"
    unfolding UTF16EncodeCodePoint_def using q r by simp
  also have "\<dots> = [of_nat (unat c), of_nat (unat d)]"
    by (simp only: c(1) d(1) add.commute)
  finally show "UTF16EncodeCodePoint (UTF16SurrogatePairToCodePoint c d) = [c, d]"
    unfolding cp by simp
qed

lemma uriUnescaped_not_percent: "uriUnescaped c \<Longrightarrow> c \<noteq> 0x25"
  by (auto simp: uriUnescaped_def)

lemma encode_unit_not_surrogate:
  assumes "\<not> isLeadingSurrogate c" "\<not> isTrailingSurrogate c"
  shows "decodeURIComponent (escape_octets (utf8_octets (unat c)) @ rest) =
           prepend [c] (decodeURIComponent rest)"
proof -
  have a: "unat c \<le> 0x10FFFF" using unat_code_unit_bound [of c] by simp
  have b: "\<not> (0xD800 \<le> unat c \<and> unat c \<le> 0xDFFF)"
    using assms unfolding surrogate_unat by linarith
  show ?thesis
    using decode_escape_code_point [OF a b, of rest] by (simp only: UTF16Encode_unit)
qed

lemma encode_pair:
  assumes "isLeadingSurrogate c" "isTrailingSurrogate d"
  shows "decodeURIComponent
           (escape_octets (utf8_octets (UTF16SurrogatePairToCodePoint c d)) @ rest) =
           prepend [c, d] (decodeURIComponent rest)"
proof -
  have b: "\<not> (0xD800 \<le> UTF16SurrogatePairToCodePoint c d \<and>
               UTF16SurrogatePairToCodePoint c d \<le> 0xDFFF)"
    using pair_code_point(1) [OF assms] by simp
  show ?thesis
    using decode_escape_code_point [OF pair_code_point(2) [OF assms] b, of rest]
    by (simp only: pair_code_point(3) [OF assms])
qed

text \<open>Decoding an encoded string gives the string back.\<close>

lemma decode_encode:
  "encodeURIComponent s = Inr e \<Longrightarrow> decodeURIComponent e = Inr s"
proof (induction s arbitrary: e rule: encodeURIComponent.induct)
  case 1
  then show ?case by simp
next
  case (2 c cs)
  show ?case
  proof (cases "uriUnescaped c")
    case True
    with 2(4) obtain t where t: "encodeURIComponent cs = Inr t" and e: "e = [c] @ t"
      by (auto simp: prepend_eq_Inr)
    from 2(1) [OF True t] uriUnescaped_not_percent [OF True] show ?thesis
      unfolding e by simp
  next
    case unesc: False
    show ?thesis
    proof (cases "isLeadingSurrogate c")
      case True
      with unesc 2(4) obtain d ds t where cs: "cs = d # ds" and d: "isTrailingSurrogate d"
        and t: "encodeURIComponent ds = Inr t"
        and e: "e = escape_octets (utf8_octets (UTF16SurrogatePairToCodePoint c d)) @ t"
        by (auto simp: prepend_eq_Inr split: list.splits if_splits)
      from 2(2) [OF unesc True cs d t] show ?thesis
        unfolding e cs encode_pair [OF True d] by simp
    next
      case lead: False
      with unesc 2(4) obtain t where tr: "\<not> isTrailingSurrogate c"
        and t: "encodeURIComponent cs = Inr t"
        and e: "e = escape_octets (utf8_octets (unat c)) @ t"
        by (auto simp: prepend_eq_Inr split: if_splits)
      from 2(3) [OF unesc lead tr t] show ?thesis
        unfolding e encode_unit_not_surrogate [OF lead tr] by simp
    qed
  qed
qed

lemma uriUnescaped_ascii: "uriUnescaped c \<Longrightarrow> unat c < 0x80"
  by (auto simp: uriUnescaped_def word_le_nat_alt)

lemma uriUnescaped_not_surrogate:
  "uriUnescaped c \<Longrightarrow> \<not> isLeadingSurrogate c \<and> \<not> isTrailingSurrogate c"
  using uriUnescaped_ascii [of c] unfolding surrogate_unat by linarith

lemma lead_not_trail: "isLeadingSurrogate c \<Longrightarrow> \<not> isTrailingSurrogate c"
  unfolding surrogate_unat by linarith

text \<open>Encoding succeeds exactly on well-formed strings.\<close>

lemma encode_Inr_iff: "(\<exists>e. encodeURIComponent s = Inr e) \<longleftrightarrow> isWellFormed s"
proof (induction s rule: isWellFormed.induct)
  case 1
  then show ?case by simp
next
  case (2 c)
  then show ?case
    using uriUnescaped_not_surrogate [of c] by (auto simp: prepend_eq_Inr)
next
  case (3 c d ds)
  show ?case
  proof (cases "isLeadingSurrogate c")
    case True
    then have "\<not> uriUnescaped c" using uriUnescaped_not_surrogate [of c] by blast
    with True 3(1) [OF True] show ?thesis by (simp add: prepend_eq_Inr)
  next
    case False
    with 3(2) [OF False] uriUnescaped_not_surrogate [of c] show ?thesis
      by (cases "uriUnescaped c"; cases "isTrailingSurrogate c") (simp_all add: prepend_eq_Inr)
  qed
qed

lemma encode_cases: "encodeURIComponent s = Inl URIError \<or> (\<exists>e. encodeURIComponent s = Inr e)"
  by (cases "encodeURIComponent s") (auto intro: error.exhaust)

lemma isWellFormed_unit:
  assumes "\<not> isLeadingSurrogate c" "\<not> isTrailingSurrogate c"
  shows "isWellFormed (c # s) = isWellFormed s"
  using assms by (cases s) simp_all

lemma isWellFormed_append: "isWellFormed p \<Longrightarrow> isWellFormed (p @ s) = isWellFormed s"
proof (induction p rule: isWellFormed.induct)
  case 1
  then show ?case by simp
next
  case (2 c)
  then show ?case using isWellFormed_unit [of c s] by simp
next
  case (3 c d ds)
  then show ?case by (cases "isLeadingSurrogate c") simp_all
qed

section \<open>Address lines\<close>

text \<open>
  C8. The address is displayed in three lines, in this order: the street; the
  neighbourhood, the city and the state as \<open>"{neighborhood}, {city} - {state}"\<close>; the
  zipcode.
\<close>

theorem getFormattedAddressLines_three:
  "getFormattedAddressLines a =
     [street a, neighborhood a @ js '', '' @ city a @ js '' - '' @ state a, zipcode a] \<and>
   length (getFormattedAddressLines a) = 3"
  by (simp add: getFormattedAddressLines_def)

section \<open>Order and delivery links\<close>

text \<open>
  C9. An empty price label is falsy, so the link is the one built without a price: the
  message is \<open>"Quero pedir: {product}"\<close> with no parenthetical.
\<close>

theorem createWhatsAppLink_empty_price:
  "createWhatsAppLink number product (Some []) = createWhatsAppLink number product None \<and>
   createWhatsAppLink number product (Some []) =
     (case encodeURIComponent (js ''Quero pedir: '' @ product) of
        Inl e \<Rightarrow> Inl e
      | Inr t \<Rightarrow> Inr (js ''https://wa.me/'' @ number @ js ''?text='' @ t))"
  by (simp add: createWhatsAppLink_def truthy_def)

lemma encode_pizza_price:
  "encodeURIComponent (js ''Quero pedir: Pizza (R$ 39,90)'') =
     Inr (js ''Quero%20pedir%3A%20Pizza%20(R%24%2039%2C90)'')"
  by code_simp

lemma encode_pizza:
  "encodeURIComponent (js ''Quero pedir: Pizza'') = Inr (js ''Quero%20pedir%3A%20Pizza'')"
  by code_simp

text \<open>
  C3. For the product \<open>"Pizza"\<close> with the price \<open>"39,90"\<close> the link is
  \<open>https://wa.me/{number}?text=Quero%20pedir%3A%20Pizza%20(R%24%2039%2C90)\<close>, the
  percent-encoding of \<open>"Quero pedir: Pizza (R$ 39,90)"\<close>. Without a price the message
  of the link is \<open>"Quero pedir: {product}"\<close>, with no parenthetical.
\<close>

theorem createWhatsAppLink_message:
  "createWhatsAppLink number (js ''Pizza'') (Some (js ''39,90'')) =
     Inr (js ''https://wa.me/'' @ number @
          js ''?text=Quero%20pedir%3A%20Pizza%20(R%24%2039%2C90)'') \<and>
   encodeURIComponent (js ''Quero pedir: Pizza (R$ 39,90)'') =
     Inr (js ''Quero%20pedir%3A%20Pizza%20(R%24%2039%2C90)'') \<and>
   createWhatsAppLink number product None =
     (case encodeURIComponent (js ''Quero pedir: '' @ product) of
        Inl e \<Rightarrow> Inl e
      | Inr t \<Rightarrow> Inr (js ''https://wa.me/'' @ number @ js ''?text='' @ t)) \<and>
   (\<forall>url. createWhatsAppLink number product None = Inr url \<longrightarrow>
      (\<exists>t. url = js ''https://wa.me/'' @ number @ js ''?text='' @ t \<and>
           decodeURIComponent t = Inr (js ''Quero pedir: '' @ product)))"
proof -
  have p: "js ''39,90'' \<noteq> []" by (simp add: js_def)
  have m: "js ''Quero pedir: '' @ js ''Pizza'' @ js '' (R$ '' @ js ''39,90'' @ js '')'' =
           js ''Quero pedir: Pizza (R$ 39,90)''"
    by (simp add: js_def)
  have q: "js ''?text='' @ js ''Quero%20pedir%3A%20Pizza%20(R%24%2039%2C90)'' =
           js ''?text=Quero%20pedir%3A%20Pizza%20(R%24%2039%2C90)''"
    by (simp add: js_def)
  have a: "createWhatsAppLink number (js ''Pizza'') (Some (js ''39,90'')) =
     Inr (js ''https://wa.me/'' @ number @
          js ''?text=Quero%20pedir%3A%20Pizza%20(R%24%2039%2C90)'')"
    by (simp add: createWhatsAppLink_def truthy_def p m encode_pizza_price q)
  have c: "createWhatsAppLink number product None =
     (case encodeURIComponent (js ''Quero pedir: '' @ product) of
        Inl e \<Rightarrow> Inl e
      | Inr t \<Rightarrow> Inr (js ''https://wa.me/'' @ number @ js ''?text='' @ t))"
    by (simp add: createWhatsAppLink_def truthy_def)
  have d: "\<exists>t. url = js ''https://wa.me/'' @ number @ js ''?text='' @ t \<and>
               decodeURIComponent t = Inr (js ''Quero pedir: '' @ product)"
    if "createWhatsAppLink number product None = Inr url" for url
  proof -
    from that c obtain t where t: "encodeURIComponent (js ''Quero pedir: '' @ product) = Inr t"
      and u: "url = js ''https://wa.me/'' @ number @ js ''?text='' @ t"
      by (auto split: sum.splits)
    from decode_encode [OF t] u show ?thesis by blast
  qed
  from a encode_pizza_price c d show ?thesis by blast
qed

theorem createWhatsAppLink_message_witness:
  "createWhatsAppLink WHATSAPP_NUMBER (js ''Pizza'') None =
     Inr (js ''https://wa.me/5511999999999?text=Quero%20pedir%3A%20Pizza'') \<and>
   decodeURIComponent (js ''Quero%20pedir%3A%20Pizza'') = Inr (js ''Quero pedir: Pizza'')"
proof -
  have m: "js ''Quero pedir: '' @ js ''Pizza'' = js ''Quero pedir: Pizza''"
    by (simp add: js_def)
  have u: "js ''https://wa.me/'' @ WHATSAPP_NUMBER @ js ''?text='' @ t =
           js ''https://wa.me/5511999999999?text='' @ t" for t
    by (simp add: js_def WHATSAPP_NUMBER_def)
  have v: "js ''https://wa.me/5511999999999?text='' @ js ''Quero%20pedir%3A%20Pizza'' =
           js ''https://wa.me/5511999999999?text=Quero%20pedir%3A%20Pizza''"
    by (simp add: js_def)
  note inst = createWhatsAppLink_message [of WHATSAPP_NUMBER "js ''Pizza''", unfolded m u]
  have link: "createWhatsAppLink WHATSAPP_NUMBER (js ''Pizza'') None =
     Inr (js ''https://wa.me/5511999999999?text=Quero%20pedir%3A%20Pizza'')"
    using inst by (simp add: encode_pizza v)
  with inst obtain t
    where "js ''https://wa.me/5511999999999?text=Quero%20pedir%3A%20Pizza'' =
           js ''https://wa.me/5511999999999?text='' @ t"
      and t: "decodeURIComponent t = Inr (js ''Quero pedir: Pizza'')"
    by blast
  then have "t = js ''Quero%20pedir%3A%20Pizza''"
    unfolding v [symmetric] by simp
  with link t show ?thesis by simp
qed

lemma encode_delivery:
  "encodeURIComponent (deliveryQuestion @ getFullAddress RESTAURANT_ADDRESS) =
     Inr (js ''Ol%C3%A1!%20Voc%C3%AAs%20fazem%20entrega%20no%20meu%20endere%C3%A7o%3F%20Rua%20das%20Flores%2C%20123%2C%20Centro%2C%20S%C3%A3o%20Paulo%20-%20SP'')"
  by code_simp

lemma encode_address:
  "encodeURIComponent (getFullAddress RESTAURANT_ADDRESS) =
     Inr (js ''Rua%20das%20Flores%2C%20123%2C%20Centro%2C%20S%C3%A3o%20Paulo%20-%20SP'')"
  by code_simp

lemma isWellFormed_deliveryQuestion: "isWellFormed deliveryQuestion"
  by code_simp

lemma isWellFormed_RESTAURANT_ADDRESS: "isWellFormed (getFullAddress RESTAURANT_ADDRESS)"
  using encode_Inr_iff [of "getFullAddress RESTAURANT_ADDRESS"] encode_address by blast

text \<open>
  C7. For an address whose single-line form \<open>"{street}, {neighborhood}, {city} - {state}"\<close>
  (no zipcode) is well-formed UTF-16, the message is the delivery question of the page
  (\<open>deliveryQuestion\<close>, with its accented letters as single code units) followed by
  that single-line address; it is percent-encoded and opened as
  \<open>https://wa.me/{number}?text={encoded}\<close>, the shape of the order link. For any other
  address \<open>encodeURIComponent\<close> raises \<open>URIError\<close> and nothing is opened.
\<close>

theorem openWhatsAppDelivery_link:
  "(isWellFormed (getFullAddress a) \<longrightarrow>
      (\<exists>t. encodeURIComponent
               (deliveryQuestion @ street a @ js '', '' @ neighborhood a @ js '', '' @
                city a @ js '' - '' @ state a) = Inr t \<and>
           openWhatsAppDelivery number a =
             Inr (WindowOpen (js ''https://wa.me/'' @ number @ js ''?text='' @ t) (js ''_blank'')) \<and>
           decodeURIComponent t = Inr (deliveryQuestion @ getFullAddress a))) \<and>
   (\<not> isWellFormed (getFullAddress a) \<longrightarrow> openWhatsAppDelivery number a = Inl URIError) \<and>
   getFullAddress a =
     street a @ js '', '' @ neighborhood a @ js '', '' @ city a @ js '' - '' @ state a \<and>
   getFullAddress (a\<lparr>zipcode := z\<rparr>) = getFullAddress a \<and>
   createWhatsAppLink number product None =
     (case encodeURIComponent (js ''Quero pedir: '' @ product) of
        Inl e \<Rightarrow> Inl e
      | Inr t \<Rightarrow> Inr (js ''https://wa.me/'' @ number @ js ''?text='' @ t))"
proof -
  have b: "getFullAddress a =
     street a @ js '', '' @ neighborhood a @ js '', '' @ city a @ js '' - '' @ state a"
    by (simp add: getFullAddress_def)
  have c: "getFullAddress (a\<lparr>zipcode := z\<rparr>) = getFullAddress a"
    by (simp add: getFullAddress_def)
  have d: "createWhatsAppLink number product None =
     (case encodeURIComponent (js ''Quero pedir: '' @ product) of
        Inl e \<Rightarrow> Inl e
      | Inr t \<Rightarrow> Inr (js ''https://wa.me/'' @ number @ js ''?text='' @ t))"
    by (simp add: createWhatsAppLink_def truthy_def)
  have wf: "isWellFormed (deliveryQuestion @ getFullAddress a) = isWellFormed (getFullAddress a)"
    by (rule isWellFormed_append [OF isWellFormed_deliveryQuestion])
  have e: "\<exists>t. encodeURIComponent
               (deliveryQuestion @ street a @ js '', '' @ neighborhood a @ js '', '' @
                city a @ js '' - '' @ state a) = Inr t \<and>
           openWhatsAppDelivery number a =
             Inr (WindowOpen (js ''https://wa.me/'' @ number @ js ''?text='' @ t) (js ''_blank'')) \<and>
           decodeURIComponent t = Inr (deliveryQuestion @ getFullAddress a)"
    if "isWellFormed (getFullAddress a)"
  proof -
    from that wf have "isWellFormed (deliveryQuestion @ getFullAddress a)" by simp
    then obtain t where t: "encodeURIComponent (deliveryQuestion @ getFullAddress a) = Inr t"
      using encode_Inr_iff by blast
    have o: "openWhatsAppDelivery number a =
            Inr (WindowOpen (js ''https://wa.me/'' @ number @ js ''?text='' @ t) (js ''_blank''))"
      by (simp add: openWhatsAppDelivery_def t)
    from t have "encodeURIComponent
               (deliveryQuestion @ street a @ js '', '' @ neighborhood a @ js '', '' @
                city a @ js '' - '' @ state a) = Inr t"
      unfolding b .
    with o decode_encode [OF t] show ?thesis by blast
  qed
  have f: "openWhatsAppDelivery number a = Inl URIError"
    if "\<not> isWellFormed (getFullAddress a)"
  proof -
    from that wf have "\<not> isWellFormed (deliveryQuestion @ getFullAddress a)" by simp
    then have "encodeURIComponent (deliveryQuestion @ getFullAddress a) = Inl URIError"
      using encode_Inr_iff [of "deliveryQuestion @ getFullAddress a"]
        encode_cases [of "deliveryQuestion @ getFullAddress a"] by blast
    then show ?thesis by (simp add: openWhatsAppDelivery_def)
  qed
  from b c d e f show ?thesis by blast
qed

theorem openWhatsAppDelivery_link_witness:
  "openWhatsAppDelivery WHATSAPP_NUMBER RESTAURANT_ADDRESS =
     Inr (WindowOpen
           (js ''https://wa.me/5511999999999?text=Ol%C3%A1!%20Voc%C3%AAs%20fazem%20entrega%20no%20meu%20endere%C3%A7o%3F%20Rua%20das%20Flores%2C%20123%2C%20Centro%2C%20S%C3%A3o%20Paulo%20-%20SP'')
           (js ''_blank'')) \<and>
   decodeURIComponent
     (js ''Ol%C3%A1!%20Voc%C3%AAs%20fazem%20entrega%20no%20meu%20endere%C3%A7o%3F%20Rua%20das%20Flores%2C%20123%2C%20Centro%2C%20S%C3%A3o%20Paulo%20-%20SP'') =
     Inr (deliveryQuestion @ getFullAddress RESTAURANT_ADDRESS) \<and>
   openWhatsAppDelivery WHATSAPP_NUMBER (RESTAURANT_ADDRESS\<lparr>street := js ''Rua '' @ [0xD83C]\<rparr>) =
     Inl URIError"
proof -
  let ?enc = "js ''Ol%C3%A1!%20Voc%C3%AAs%20fazem%20entrega%20no%20meu%20endere%C3%A7o%3F%20Rua%20das%20Flores%2C%20123%2C%20Centro%2C%20S%C3%A3o%20Paulo%20-%20SP''"
  let ?bad = "RESTAURANT_ADDRESS\<lparr>street := js ''Rua '' @ [0xD83C]\<rparr>"
  have u: "js ''https://wa.me/'' @ WHATSAPP_NUMBER @ js ''?text='' @ ?enc =
           js ''https://wa.me/5511999999999?text=Ol%C3%A1!%20Voc%C3%AAs%20fazem%20entrega%20no%20meu%20endere%C3%A7o%3F%20Rua%20das%20Flores%2C%20123%2C%20Centro%2C%20S%C3%A3o%20Paulo%20-%20SP''"
    by (simp add: js_def WHATSAPP_NUMBER_def)
  from openWhatsAppDelivery_link [of RESTAURANT_ADDRESS WHATSAPP_NUMBER]
    isWellFormed_RESTAURANT_ADDRESS
  obtain t where o: "openWhatsAppDelivery WHATSAPP_NUMBER RESTAURANT_ADDRESS =
      Inr (WindowOpen (js ''https://wa.me/'' @ WHATSAPP_NUMBER @ js ''?text='' @ t) (js ''_blank''))"
    and d: "decodeURIComponent t = Inr (deliveryQuestion @ getFullAddress RESTAURANT_ADDRESS)"
    by blast
  have "openWhatsAppDelivery WHATSAPP_NUMBER RESTAURANT_ADDRESS =
      Inr (WindowOpen (js ''https://wa.me/'' @ WHATSAPP_NUMBER @ js ''?text='' @ ?enc) (js ''_blank''))"
    by (simp add: openWhatsAppDelivery_def encode_delivery)
  with o have "t = ?enc" by simp
  with o d u have good: "openWhatsAppDelivery WHATSAPP_NUMBER RESTAURANT_ADDRESS =
      Inr (WindowOpen
           (js ''https://wa.me/5511999999999?text=Ol%C3%A1!%20Voc%C3%AAs%20fazem%20entrega%20no%20meu%20endere%C3%A7o%3F%20Rua%20das%20Flores%2C%20123%2C%20Centro%2C%20S%C3%A3o%20Paulo%20-%20SP'')
           (js ''_blank''))"
    and dec: "decodeURIComponent ?enc = Inr (deliveryQuestion @ getFullAddress RESTAURANT_ADDRESS)"
    by simp_all
  have "\<not> isWellFormed (getFullAddress ?bad)"
    by code_simp
  with openWhatsAppDelivery_link [of ?bad WHATSAPP_NUMBER]
  have bad: "openWhatsAppDelivery WHATSAPP_NUMBER ?bad = Inl URIError"
    by blast
  from good dec bad show ?thesis by blast
qed

text \<open>
  A city name that is a lone trailing surrogate: the message cannot be encoded and the
  link is not opened.
\<close>

theorem openWhatsAppDelivery_unpaired_surrogate:
  "openWhatsAppDelivery WHATSAPP_NUMBER (RESTAURANT_ADDRESS\<lparr>city := [0xDC00]\<rparr>) =
     Inl URIError"
  by code_simp

text \<open>
  C6. For an address whose single-line form is well-formed UTF-16, the map link is
  \<open>https://www.google.com/maps/search/\<close> followed by the percent-encoding of the
  single-line address, and decoding that part gives the single-line address back. For
  any other address \<open>encodeURIComponent\<close> raises \<open>URIError\<close>.
\<close>

theorem getGoogleMapsUrl_round_trip:
  "(isWellFormed (getFullAddress a) \<longrightarrow>
      (\<exists>enc. encodeURIComponent (getFullAddress a) = Inr enc \<and>
             getGoogleMapsUrl a = Inr (js ''https://www.google.com/maps/search/'' @ enc) \<and>
             decodeURIComponent enc = Inr (getFullAddress a))) \<and>
   (\<not> isWellFormed (getFullAddress a) \<longrightarrow> getGoogleMapsUrl a = Inl URIError)"
proof (cases "isWellFormed (getFullAddress a)")
  case True
  then obtain enc where e: "encodeURIComponent (getFullAddress a) = Inr enc"
    using encode_Inr_iff by blast
  have "getGoogleMapsUrl a = Inr (js ''https://www.google.com/maps/search/'' @ enc)"
    by (simp add: getGoogleMapsUrl_def e)
  with e decode_encode [OF e] True show ?thesis by blast
next
  case False
  then have "encodeURIComponent (getFullAddress a) = Inl URIError"
    using encode_Inr_iff [of "getFullAddress a"] encode_cases [of "getFullAddress a"] by blast
  then have "getGoogleMapsUrl a = Inl URIError"
    by (simp add: getGoogleMapsUrl_def)
  with False show ?thesis by blast
qed

theorem getGoogleMapsUrl_round_trip_witness:
  "getGoogleMapsUrl RESTAURANT_ADDRESS =
     Inr (js ''https://www.google.com/maps/search/Rua%20das%20Flores%2C%20123%2C%20Centro%2C%20S%C3%A3o%20Paulo%20-%20SP'') \<and>
   decodeURIComponent
     (js ''Rua%20das%20Flores%2C%20123%2C%20Centro%2C%20S%C3%A3o%20Paulo%20-%20SP'') =
     Inr (getFullAddress RESTAURANT_ADDRESS) \<and>
   getGoogleMapsUrl (RESTAURANT_ADDRESS\<lparr>city := [0xDC00]\<rparr>) = Inl URIError"
proof -
  let ?enc = "js ''Rua%20das%20Flores%2C%20123%2C%20Centro%2C%20S%C3%A3o%20Paulo%20-%20SP''"
  have u: "js ''https://www.google.com/maps/search/'' @ ?enc =
           js ''https://www.google.com/maps/search/Rua%20das%20Flores%2C%20123%2C%20Centro%2C%20S%C3%A3o%20Paulo%20-%20SP''"
    by (simp add: js_def)
  from getGoogleMapsUrl_round_trip [of RESTAURANT_ADDRESS] isWellFormed_RESTAURANT_ADDRESS
  obtain enc where e: "encodeURIComponent (getFullAddress RESTAURANT_ADDRESS) = Inr enc"
    and g: "getGoogleMapsUrl RESTAURANT_ADDRESS = Inr (js ''https://www.google.com/maps/search/'' @ enc)"
    and d: "decodeURIComponent enc = Inr (getFullAddress RESTAURANT_ADDRESS)"
    by blast
  from e encode_address have "enc = ?enc" by simp
  with g d have a: "getGoogleMapsUrl RESTAURANT_ADDRESS = Inr (js ''https://www.google.com/maps/search/'' @ ?enc)"
    and b: "decodeURIComponent ?enc = Inr (getFullAddress RESTAURANT_ADDRESS)"
    by simp_all
  have "\<not> isWellFormed (getFullAddress (RESTAURANT_ADDRESS\<lparr>city := [0xDC00]\<rparr>))"
    by code_simp
  with getGoogleMapsUrl_round_trip [of "RESTAURANT_ADDRESS\<lparr>city := [0xDC00]\<rparr>"]
  have c: "getGoogleMapsUrl (RESTAURANT_ADDRESS\<lparr>city := [0xDC00]\<rparr>) = Inl URIError"
    by blast
  from a b c u show ?thesis by simp
qed

text \<open>
  A street name cut in the middle of a surrogate pair: the map link is not built.
\<close>

theorem getGoogleMapsUrl_unpaired_surrogate:
  "getGoogleMapsUrl
     \<lparr>street = js ''Rua '' @ [0xD83C], neighborhood = js ''Centro'', city = js ''Santos'',
      state = js ''SP'', zipcode = js ''01310-100''\<rparr> = Inl URIError"
  by code_simp

end
